theory Spec2Isabelle
  imports Complex_Main
begin

section \<open>Alignment trimming (lib/muscle.py, class Align)\<close>

text \<open>
  The theory embeds the trimming engine of \<^verbatim>\<open>lib/muscle.py\<close>: the methods of class
  \<^verbatim>\<open>Align\<close> that locate a region, trim an alignment and snip ambiguous bases.
  The source is Python 2 (\<^verbatim>\<open>xrange\<close>, the \<^verbatim>\<open>print\<close> statement); integer division,
  \<^verbatim>\<open>round\<close> and the ordering of \<^verbatim>\<open>None\<close> are those of Python 2.

  Exceptions are values: every method returns \<open>error + result\<close>, and \<open>Inl\<close> is an
  exception that leaves the method.
\<close>

datatype error =
    TypeError | NameError | UnboundLocalError | IndexError | ValueError | AttributeError

subsection \<open>Python slices\<close>

text \<open>
  \<^verbatim>\<open>xs[lo:hi]\<close>: a negative bound counts from the end, every bound is clamped to the
  sequence, and an empty range gives the empty sequence. A bound left out is \<open>None\<close>.
\<close>

definition norm_index :: "nat \<Rightarrow> int \<Rightarrow> nat" where
  "norm_index n i = (if i < 0 then nat (max 0 (i + int n)) else min n (nat i))"

definition py_slice :: "int option \<Rightarrow> int option \<Rightarrow> 'a list \<Rightarrow> 'a list" where
  "py_slice lo hi xs =
     (let n = length xs;
          a = (case lo of None \<Rightarrow> 0 | Some i \<Rightarrow> norm_index n i);
          b = (case hi of None \<Rightarrow> n | Some j \<Rightarrow> norm_index n j)
      in take (b - a) (drop a xs))"

subsection \<open>Sequence records and alignments (Biopython)\<close>

text \<open>
  A \<^verbatim>\<open>SeqRecord\<close> carries \<^verbatim>\<open>id\<close>, \<^verbatim>\<open>name\<close>, \<^verbatim>\<open>description\<close> and \<^verbatim>\<open>seq\<close>; the field
  \<^verbatim>\<open>id\<close> is called \<open>ident\<close> here. An alignment is the list of its records
  (\<^verbatim>\<open>_records\<close>), in order; \<^verbatim>\<open>len(alignment)\<close> is the number of records and an
  alignment without records is falsy.
\<close>

record seqrecord =
  ident :: string
  name :: string
  description :: string
  seq :: string

type_synonym alignment_t = "seqrecord list"

text \<open>Slicing a record slices its sequence and keeps id, name and description.\<close>

definition slice_record :: "seqrecord \<Rightarrow> int option \<Rightarrow> int option \<Rightarrow> seqrecord" where
  "slice_record r lo hi = r\<lparr>seq := py_slice lo hi (seq r)\<rparr>"

text \<open>
  \<^verbatim>\<open>Alignment.get_alignment_length\<close>: the largest record length, 0 without records.
\<close>

definition get_alignment_length :: "alignment_t \<Rightarrow> nat" where
  "get_alignment_length al =
     fold (\<lambda>r max_length. if length (seq r) > max_length then length (seq r) else max_length) al 0"

text \<open>
  \<^verbatim>\<open>Alignment.get_column(col)\<close> concatenates \<^verbatim>\<open>rec.seq[col]\<close> over the records; a record
  shorter than \<open>col + 1\<close> raises IndexError. The method first asserts that \<open>col\<close> is
  at most the alignment length; every caller here takes \<open>col\<close> from
  \<^verbatim>\<open>xrange(get_alignment_length())\<close>, where the assertion holds.
\<close>

fun get_column :: "alignment_t \<Rightarrow> nat \<Rightarrow> error + string" where
  "get_column [] col = Inr []"
| "get_column (r # rs) col =
     (if col < length (seq r)
      then (case get_column rs col of Inl e \<Rightarrow> Inl e | Inr s \<Rightarrow> Inr (seq r ! col # s))
      else Inl IndexError)"

text \<open>The data model's invariant: every record has the alignment's column count.\<close>

definition rectangular :: "alignment_t \<Rightarrow> bool" where
  "rectangular al = list_all (\<lambda>r. length (seq r) = get_alignment_length al) al"

subsection \<open>The Align object\<close>

text \<open>
  \<open>ploc\<close> is \<open>None\<close> while the attribute has never been assigned (\<^verbatim>\<open>__init__\<close> does not
  create it); \<^verbatim>\<open>get_probe_location\<close> assigns a pair. The summary and consensus that
  Biopython computes from a trimmed alignment are opaque: the field holds the alignment
  they were computed from. \<open>stdout\<close> collects the printed lines.
\<close>

record align =
  alignment :: alignment_t
  ploc :: "(int \<times> int) option"
  trimmed_alignment :: "alignment_t option"
  trimmed_alignment_summary :: "alignment_t option"
  perfect_trimmed_alignment :: "alignment_t option"
  stdout :: "string list"

definition truthy_alignment :: "alignment_t option \<Rightarrow> bool" where
  "truthy_alignment ta = (case ta of None \<Rightarrow> False | Some rs \<Rightarrow> rs \<noteq> [])"

text \<open>\<^verbatim>\<open>alignment._records.append(r)\<close>; on \<^verbatim>\<open>None\<close> the attribute access raises.\<close>

definition append_record :: "alignment_t option \<Rightarrow> seqrecord \<Rightarrow> error + alignment_t option" where
  "append_record ta r =
     (case ta of None \<Rightarrow> Inl AttributeError | Some rs \<Rightarrow> Inr (Some (rs @ [r])))"

subsection \<open>\<^verbatim>\<open>_find_ends\<close>\<close>

text \<open>
  The loop variable \<open>col\<close> is unbound until the first iteration; returning it after a
  loop over no column raises UnboundLocalError.
\<close>

fun find_ends_loop :: "alignment_t \<Rightarrow> nat list \<Rightarrow> nat option \<Rightarrow> error + nat" where
  "find_ends_loop al [] col = (case col of None \<Rightarrow> Inl UnboundLocalError | Some c \<Rightarrow> Inr c)"
| "find_ends_loop al (c # cs) col =
     (case get_column al c of
        Inl e \<Rightarrow> Inl e
      | Inr column \<Rightarrow>
          if CHR ''-'' \<in> set column then find_ends_loop al cs (Some c) else Inr c)"

definition find_ends :: "alignment_t \<Rightarrow> bool \<Rightarrow> error + nat" where
  "find_ends al forward =
     (let theRange = (if forward then [0..<get_alignment_length al]
                      else rev [0..<get_alignment_length al])
      in find_ends_loop al theRange None)"

subsection \<open>\<^verbatim>\<open>_base_checker\<close>\<close>

text \<open>
  \<open>loc\<close> is whatever the caller passes: an integer (the midpoint) or a tuple (the probe
  location). \<^verbatim>\<open>len(loc)\<close> of an integer raises TypeError. A one-element tuple is
  replaced by the pair \<^verbatim>\<open>(loc, loc)\<close> of tuples, and a slice bound that is a tuple raises
  TypeError. The method returns \<^verbatim>\<open>True\<close> or falls off its end (\<^verbatim>\<open>None\<close>, falsy).
\<close>

datatype loc = Int_loc int | Tuple_loc "int list"

fun base_checker :: "int \<Rightarrow> seqrecord \<Rightarrow> loc \<Rightarrow> error + bool" where
  "base_checker bases sequence (Int_loc i) = Inl TypeError"
| "base_checker bases sequence (Tuple_loc xs) =
     (if length xs = 1 then Inl TypeError
      else if length xs = 0 then Inl IndexError
      else if \<not> bases > int (length (py_slice None (Some (xs ! 0)) (seq sequence))) \<and>
              \<not> bases > int (length (py_slice (Some (xs ! 1)) None (seq sequence)))
           then Inr True
           else Inr False)"

subsection \<open>\<^verbatim>\<open>_record_formatter\<close>\<close>

text \<open>
  The method takes \<open>temp\<close> only and reads \<^verbatim>\<open>sequence.id\<close>, \<^verbatim>\<open>sequence.name\<close> and
  \<^verbatim>\<open>sequence.description\<close>. \<^verbatim>\<open>sequence\<close> is neither a parameter nor a local of the
  method, so Python looks it up among the module's globals; the module binds no such name.
\<close>

definition global_sequence :: "seqrecord option" where
  "global_sequence = None"

definition record_formatter :: "string \<Rightarrow> error + seqrecord" where
  "record_formatter temp =
     (case global_sequence of
        None \<Rightarrow> Inl NameError
      | Some sequence \<Rightarrow>
          Inr \<lparr>ident = ident sequence, name = name sequence,
               description = description sequence, seq = temp\<rparr>)"

subsection \<open>\<^verbatim>\<open>get_probe_location\<close>\<close>

text \<open>
  The records are searched from the last one for \<^verbatim>\<open>id == 'probe'\<close>. The match of
  \<^verbatim>\<open>^-*\<close> ends after the leading gaps and the match of \<^verbatim>\<open>-*$\<close> starts at the trailing
  gaps. Without a probe record \<open>start\<close> is unbound.
\<close>

definition get_probe_location :: "align \<Rightarrow> error + align" where
  "get_probe_location self =
     (case find (\<lambda>record. ident record = ''probe'') (rev (alignment self)) of
        None \<Rightarrow> Inl UnboundLocalError
      | Some record \<Rightarrow>
          Inr (self\<lparr>ploc := Some
            (int (length (takeWhile (\<lambda>c. c = CHR ''-'') (seq record))),
             int (length (seq record)) -
               int (length (takeWhile (\<lambda>c. c = CHR ''-'') (rev (seq record)))))\<rparr>))"

subsection \<open>\<^verbatim>\<open>running_average\<close>\<close>

text \<open>
  Python 2's \<^verbatim>\<open>round(x, 0)\<close> rounds half away from zero; \<^verbatim>\<open>int\<close> of the result is
  that integer. The floating-point numbers of the source (\<open>proportion\<close>, \<open>threshold\<close>,
  the weights \<^verbatim>\<open>1.0/window_size\<close> and the convolution) are exact rationals in
  \<open>running_average\<close>; \<open>running_average_np\<close> below leaves numpy's doubles open.
\<close>

definition py2_round :: "rat \<Rightarrow> int" where
  "py2_round x = (if x \<ge> 0 then \<lfloor>x + 1 / 2\<rfloor> else \<lceil>x - 1 / 2\<rceil>)"

text \<open>
  \<^verbatim>\<open>del xs[k]\<close>: \<^verbatim>\<open>None\<close> is no index (TypeError), a negative index counts from the end,
  an index outside the list raises IndexError.
\<close>

definition py_del :: "'a list \<Rightarrow> int option \<Rightarrow> error + 'a list" where
  "py_del xs k =
     (case k of
        None \<Rightarrow> Inl TypeError
      | Some i \<Rightarrow>
          (let n = int (length xs); j = (if i < 0 then i + n else i)
           in if 0 \<le> j \<and> j < n then Inr (take (nat j) xs @ drop (Suc (nat j)) xs)
              else Inl IndexError))"

text \<open>The body of the first loop (\<^verbatim>\<open>not running_probe\<close>) for one column.\<close>

definition column_difference :: "rat \<Rightarrow> nat \<Rightarrow> string \<Rightarrow> int" where
  "column_difference proportion members column_values =
     (let column_list =
            (if int (count_list column_values (CHR ''-'')) \<le> py2_round (proportion * of_nat members)
             then filter (\<lambda>i. i \<noteq> CHR ''-'') column_values
             else column_values)
      in if length (remdups column_list) > 1 then 0 else 1)"

text \<open>The body of the second loop (\<^verbatim>\<open>running_probe\<close>) for one column.\<close>

definition column_difference_probe :: "int option \<Rightarrow> string \<Rightarrow> error + int" where
  "column_difference_probe k column_values =
     (case py_del column_values k of
        Inl e \<Rightarrow> Inl e
      | Inr column_values' \<Rightarrow> Inr (if length (remdups column_values') > 1 then 0 else 1))"

fun differences_loop ::
  "alignment_t \<Rightarrow> rat \<Rightarrow> int option \<Rightarrow> bool \<Rightarrow> nat list \<Rightarrow> int list \<Rightarrow> error + int list" where
  "differences_loop al proportion k running_probe [] differences = Inr differences"
| "differences_loop al proportion k running_probe (column # columns) differences =
     (case get_column al column of
        Inl e \<Rightarrow> Inl e
      | Inr column_values \<Rightarrow>
          if \<not> running_probe
          then differences_loop al proportion k running_probe columns
                 (differences @ [column_difference proportion (length al) column_values])
          else (case column_difference_probe k column_values of
                  Inl e \<Rightarrow> Inl e
                | Inr d \<Rightarrow>
                    differences_loop al proportion k running_probe columns (differences @ [d])))"

text \<open>The list \<open>differences\<close> after the loop over all columns.\<close>

definition column_differences ::
  "alignment_t \<Rightarrow> rat \<Rightarrow> int option \<Rightarrow> bool \<Rightarrow> error + int list" where
  "column_differences al proportion k running_probe =
     differences_loop al proportion k running_probe [0..<get_alignment_length al] []"

text \<open>
  \<^verbatim>\<open>numpy.convolve(a, v)\<close> in its default mode \<^verbatim>\<open>full\<close>: an empty argument raises
  ValueError, otherwise the result has \<open>length a + length v - 1\<close> entries and entry
  \<open>n\<close> is the sum of \<open>a[m] * v[n - m]\<close> over the \<open>m\<close> where both indices exist.
\<close>

definition convolve :: "rat list \<Rightarrow> rat list \<Rightarrow> error + rat list" where
  "convolve a v =
     (if a = [] \<or> v = [] then Inl ValueError
      else Inr (map (\<lambda>n. \<Sum>m\<leftarrow>[0..<length a].
                            if m \<le> n \<and> n - m < length v then a ! m * v ! (n - m) else 0)
                    [0..<length a + length v - 1]))"

text \<open>
  \<^verbatim>\<open>numpy.repeat(1.0, window_size)\<close> raises ValueError for a negative count.
  \<^verbatim>\<open>numpy.where(running_average >= threshold)[0]\<close> is the increasing list of the
  positions that meet the threshold; \<^verbatim>\<open>good[0]\<close> on the empty list is the IndexError
  that the \<^verbatim>\<open>try\<close> catches.
\<close>

definition running_average ::
  "alignment_t \<Rightarrow> int \<Rightarrow> rat \<Rightarrow> rat \<Rightarrow> int option \<Rightarrow> bool \<Rightarrow> error + (int option \<times> int option)" where
  "running_average al window_size threshold proportion k running_probe =
     (case column_differences al proportion k running_probe of
        Inl e \<Rightarrow> Inl e
      | Inr differences \<Rightarrow>
          if window_size < 0 then Inl ValueError
          else
            (let weight = replicate (nat window_size) (1 / of_int window_size)
             in case convolve (map of_int differences) weight of
                  Inl e \<Rightarrow> Inl e
                | Inr full \<Rightarrow>
                    (let running_average =
                           py_slice (Some (window_size - 1)) (Some (- (window_size - 1))) full;
                         good = filter (\<lambda>i. running_average ! i \<ge> threshold)
                                  [0..<length running_average]
                     in if good = [] then Inr (None, None)
                        else Inr (Some (int (hd good)), Some (int (last good) + window_size)))))"

text \<open>
  The same method with numpy's double-precision arithmetic left open. Lines 153 to 155
  compute the convolution in IEEE doubles, and line 156 compares doubles; the order in
  which numpy sums is its own. \<open>np_convolve differences window_size\<close> stands for
  \<^verbatim>\<open>numpy.convolve(numpy.array(differences), numpy.repeat(1.0, window_size)/window_size)\<close>
  and \<open>meets x\<close> for \<^verbatim>\<open>x >= threshold\<close>, both as numpy computes them. \<open>clip\<close> is the
  rest of the method: the slice of line 155, the positions of line 156 and the
  \<^verbatim>\<open>try\<close> of lines 158 to 161.
\<close>

definition clip :: "int \<Rightarrow> ('f \<Rightarrow> bool) \<Rightarrow> 'f list \<Rightarrow> int option \<times> int option" where
  "clip window_size meets full =
     (let running_average = py_slice (Some (window_size - 1)) (Some (- (window_size - 1))) full;
          good = filter (\<lambda>i. meets (running_average ! i)) [0..<length running_average]
      in if good = [] then (None, None)
         else (Some (int (hd good)), Some (int (last good) + window_size)))"

definition running_average_np ::
  "(int list \<Rightarrow> int \<Rightarrow> error + 'f list) \<Rightarrow> ('f \<Rightarrow> bool) \<Rightarrow>
   alignment_t \<Rightarrow> int \<Rightarrow> rat \<Rightarrow> int option \<Rightarrow> bool \<Rightarrow> error + (int option \<times> int option)" where
  "running_average_np np_convolve meets al window_size proportion k running_probe =
     (case column_differences al proportion k running_probe of
        Inl e \<Rightarrow> Inl e
      | Inr differences \<Rightarrow>
          (case np_convolve differences window_size of
             Inl e \<Rightarrow> Inl e
           | Inr full \<Rightarrow> Inr (clip window_size meets full)))"

text \<open>
  What is used of numpy: a window size below one or an empty list of indicators raises
  ValueError (\<^verbatim>\<open>numpy.repeat\<close> for a negative count, \<^verbatim>\<open>numpy.convolve\<close> for an empty
  argument); otherwise the full convolution has \<open>column_count + window_size - 1\<close>
  entries. Nothing is said of the values of the entries.
\<close>

definition numpy_contract :: "(int list \<Rightarrow> int \<Rightarrow> error + 'f list) \<Rightarrow> bool" where
  "numpy_contract np_convolve =
     (\<forall>differences window_size.
        if window_size \<le> 0 \<or> differences = []
        then np_convolve differences window_size = Inl ValueError
        else \<exists>full. np_convolve differences window_size = Inr full \<and>
                    length full = length differences + nat window_size - 1)"

text \<open>The convolution of \<open>running_average\<close> above, in exact arithmetic, as one such function.\<close>

definition exact_convolve :: "int list \<Rightarrow> int \<Rightarrow> error + rat list" where
  "exact_convolve differences window_size =
     (if window_size < 0 then Inl ValueError
      else convolve (map of_int differences)
             (replicate (nat window_size) (1 / of_int window_size)))"

subsection \<open>\<^verbatim>\<open>trim_alignment\<close>\<close>

text \<open>
  The search for the probe under \<^verbatim>\<open>running-probe\<close>: \<open>k\<close> is the index of the first
  record named \<^verbatim>\<open>probe\<close>, the last index when there is none, and unbound for an
  alignment without records.
\<close>

fun probe_index_loop :: "(nat \<times> seqrecord) list \<Rightarrow> nat option \<Rightarrow> nat option" where
  "probe_index_loop [] k = k"
| "probe_index_loop ((k', v) # rest) k =
     (if name v = ''probe'' then Some k' else probe_index_loop rest (Some k'))"

text \<open>
  The first \<^verbatim>\<open>if\<close> chain of \<^verbatim>\<open>trim_alignment\<close>. Under \<^verbatim>\<open>running-probe\<close> the call is
  \<^verbatim>\<open>self.running_average(window_size, threshold, k, True)\<close> against the signature
  \<^verbatim>\<open>(window_size, threshold, proportion = 0.3, k=None, running_probe=False)\<close>: the
  arguments are positional, so \<open>proportion\<close> receives the index \<open>k\<close>, \<open>k\<close> receives
  \<^verbatim>\<open>True\<close> (the integer 1) and \<open>running_probe\<close> keeps its default. For any other method
  \<open>start\<close> and \<open>end\<close> stay unbound; they are read only where the method is one of the
  three.
\<close>

definition locate ::
  "alignment_t \<Rightarrow> string \<Rightarrow> int \<Rightarrow> rat \<Rightarrow> error + (int option \<times> int option)" where
  "locate al method window_size threshold =
     (if method = ''edges'' then
        (case find_ends al True of
           Inl e \<Rightarrow> Inl e
         | Inr start \<Rightarrow>
             (case find_ends al False of
                Inl e \<Rightarrow> Inl e
              | Inr end_col \<Rightarrow> Inr (Some (int start), Some (int end_col))))
      else if method = ''running'' then
        running_average al window_size threshold (3 / 10) None False
      else if method = ''running-probe'' then
        (case probe_index_loop (enumerate 0 al) None of
           None \<Rightarrow> Inl UnboundLocalError
         | Some k \<Rightarrow> running_average al window_size threshold (of_nat k) (Some 1) False)
      else Inr (None, None))"

text \<open>
  The body of the loop over the records, for one record: the new value of
  \<^verbatim>\<open>self.trimmed_alignment\<close> and whether the loop breaks. \<open>bases\<close> is used only where it
  is truthy, so \<^verbatim>\<open>None\<close> and 0 are one value \<open>b = 0\<close>. Python 2 orders \<^verbatim>\<open>None\<close> below
  every number, so \<^verbatim>\<open>start >= 0\<close> is false for \<^verbatim>\<open>None\<close>. A location pair is a non-empty
  tuple and is truthy; reading \<^verbatim>\<open>self.ploc\<close> before it was assigned raises
  AttributeError. The branches are in the order of the source.
\<close>

definition trim_record ::
  "string \<Rightarrow> bool \<Rightarrow> int option \<Rightarrow> (int \<times> int) option \<Rightarrow> int option \<Rightarrow> int option \<Rightarrow>
   seqrecord \<Rightarrow> alignment_t option \<Rightarrow> error + (alignment_t option \<times> bool)" where
  "trim_record method remove_probe bases pl start end_col sequence ta =
     (let b = (case bases of None \<Rightarrow> 0 | Some x \<Rightarrow> x) in
      if (method = ''edges'' \<or> method = ''running'' \<or> method = ''running-probe'') \<and>
         \<not> remove_probe then
        (if (case start of None \<Rightarrow> False | Some s \<Rightarrow> s \<ge> 0) \<and>
            (case end_col of None \<Rightarrow> False | Some e \<Rightarrow> e \<noteq> 0)
         then (case append_record ta (slice_record sequence start end_col) of
                 Inl e \<Rightarrow> Inl e
               | Inr ta' \<Rightarrow> Inr (ta', False))
         else Inr (None, True))
      else if method = ''static'' \<and> \<not> remove_probe \<and> b \<noteq> 0 then
        (let mid_point = int (length (seq sequence)) div 2 in
         case base_checker b sequence (Int_loc mid_point) of
           Inl e \<Rightarrow> Inl e
         | Inr ok \<Rightarrow>
             if ok then
               (case append_record ta
                       (slice_record sequence (Some (mid_point - b)) (Some (mid_point + b))) of
                  Inl e \<Rightarrow> Inl e
                | Inr ta' \<Rightarrow> Inr (ta', False))
             else Inr (None, False))
      else if method = ''static'' \<and> \<not> remove_probe \<and> b \<noteq> 0 then
        (case pl of
           None \<Rightarrow> Inl AttributeError
         | Some (p0, p1) \<Rightarrow>
             (case base_checker b sequence (Tuple_loc [p0, p1]) of
                Inl e \<Rightarrow> Inl e
              | Inr ok \<Rightarrow>
                  if ok then
                    (case append_record ta
                            (slice_record sequence (Some (p0 - b)) (Some (p1 + b))) of
                       Inl e \<Rightarrow> Inl e
                     | Inr ta' \<Rightarrow> Inr (ta', False))
                  else Inr (None, False)))
      else if remove_probe then
        (case pl of
           None \<Rightarrow> Inl AttributeError
         | Some (p0, p1) \<Rightarrow>
             (let temp = py_slice None (Some p0) (seq sequence) @
                         py_slice (Some p1) None (seq sequence)
              in case ta of
                   None \<Rightarrow> Inl AttributeError
                 | Some rs \<Rightarrow>
                     (case record_formatter temp of
                        Inl e \<Rightarrow> Inl e
                      | Inr r \<Rightarrow> Inr (Some (rs @ [r]), False))))
      else if method = ''static'' \<and> remove_probe \<and> b \<noteq> 0 then
        (case pl of
           None \<Rightarrow> Inl AttributeError
         | Some (p0, p1) \<Rightarrow>
             (case base_checker b sequence (Tuple_loc [p0, p1]) of
                Inl e \<Rightarrow> Inl e
              | Inr ok \<Rightarrow>
                  if ok then
                    (let temp = py_slice (Some (p0 - b)) (Some p0) (seq sequence) @
                                py_slice (Some p1) (Some (p1 + b)) (seq sequence)
                     in case ta of
                          None \<Rightarrow> Inl AttributeError
                        | Some rs \<Rightarrow>
                            (case record_formatter temp of
                               Inl e \<Rightarrow> Inl e
                             | Inr r \<Rightarrow> Inr (Some (rs @ [r]), False)))
                  else Inr (None, False)))
      else Inr (ta, False))"

fun trim_loop ::
  "string \<Rightarrow> bool \<Rightarrow> int option \<Rightarrow> (int \<times> int) option \<Rightarrow> int option \<Rightarrow> int option \<Rightarrow>
   alignment_t \<Rightarrow> alignment_t option \<Rightarrow> error + alignment_t option" where
  "trim_loop method remove_probe bases pl start end_col [] ta = Inr ta"
| "trim_loop method remove_probe bases pl start end_col (sequence # rest) ta =
     (case trim_record method remove_probe bases pl start end_col sequence ta of
        Inl e \<Rightarrow> Inl e
      | Inr (ta', break) \<Rightarrow>
          if break then Inr ta'
          else trim_loop method remove_probe bases pl start end_col rest ta')"

text \<open>
  \<^verbatim>\<open>str.split(sep)\<close> and the line printed for a dropped alignment: the second
  \<^verbatim>\<open>|\<close>-separated field of the first record's description. A missing record or field
  raises IndexError.
\<close>

fun split_on :: "char \<Rightarrow> string \<Rightarrow> string list" where
  "split_on c [] = [[]]"
| "split_on c (x # xs) =
     (if x = c then [] # split_on c xs
      else (case split_on c xs of [] \<Rightarrow> [[x]] | w # ws \<Rightarrow> (x # w) # ws))"

definition dropped_notice :: "alignment_t \<Rightarrow> error + string" where
  "dropped_notice al =
     (case al of
        [] \<Rightarrow> Inl IndexError
      | r # _ \<Rightarrow>
          (case split_on (CHR ''|'') (description r) of
             _ # tag # _ \<Rightarrow> Inr (CHR 0x09 # ''Alignment '' @ tag @ '' dropped due to trimming'')
           | _ \<Rightarrow> Inl IndexError))"

definition trim_alignment ::
  "align \<Rightarrow> string \<Rightarrow> bool \<Rightarrow> int option \<Rightarrow> bool \<Rightarrow> int \<Rightarrow> rat \<Rightarrow> error + align" where
  "trim_alignment self method remove_probe bases consensus window_size threshold =
     (case locate (alignment self) method window_size threshold of
        Inl e \<Rightarrow> Inl e
      | Inr (start, end_col) \<Rightarrow>
          (case (if method = ''notrim'' then Inr (Some (alignment self))
                 else trim_loop method remove_probe bases (ploc self) start end_col
                        (alignment self) (Some [])) of
             Inl e \<Rightarrow> Inl e
           | Inr ta \<Rightarrow>
               (let self1 = self\<lparr>trimmed_alignment := ta\<rparr>;
                    self2 = (if consensus \<and> truthy_alignment ta
                             then self1\<lparr>trimmed_alignment_summary := ta\<rparr> else self1)
                in if \<not> truthy_alignment ta then
                     (case dropped_notice (alignment self) of
                        Inl e \<Rightarrow> Inl e
                      | Inr line \<Rightarrow> Inr (self2\<lparr>stdout := stdout self2 @ [line]\<rparr>))
                   else Inr self2)))"

subsection \<open>\<^verbatim>\<open>trim_ambiguous_bases\<close>\<close>

fun ambiguous_loop :: "alignment_t \<Rightarrow> nat list \<Rightarrow> nat list \<Rightarrow> error + nat list" where
  "ambiguous_loop ta [] ambiguous_bases = Inr ambiguous_bases"
| "ambiguous_loop ta (column # columns) ambiguous_bases =
     (case get_column ta column of
        Inl e \<Rightarrow> Inl e
      | Inr column_values \<Rightarrow>
          if CHR ''N'' \<in> set column_values
          then ambiguous_loop ta columns (ambiguous_bases @ [column])
          else ambiguous_loop ta columns ambiguous_bases)"

text \<open>
  The loop over \<open>pos\<close> that keeps the first pair of neighbouring markers with the
  largest difference; the comparison is strict.
\<close>

fun maximum_loop ::
  "int list \<Rightarrow> nat list \<Rightarrow> int \<times> (nat \<times> nat) option \<Rightarrow> int \<times> (nat \<times> nat) option" where
  "maximum_loop ambiguous_bases [] acc = acc"
| "maximum_loop ambiguous_bases (pos # rest) (maximum, maximum_pos) =
     (if pos + 1 < length ambiguous_bases then
        (let difference = ambiguous_bases ! (pos + 1) - ambiguous_bases ! pos
         in if difference > maximum
            then maximum_loop ambiguous_bases rest (difference, Some (pos, pos + 1))
            else maximum_loop ambiguous_bases rest (maximum, maximum_pos))
      else maximum_loop ambiguous_bases rest (maximum, maximum_pos))"

definition trim_ambiguous_bases :: "align \<Rightarrow> error + align" where
  "trim_ambiguous_bases self =
     (if \<not> truthy_alignment (trimmed_alignment self)
      then Inr (self\<lparr>perfect_trimmed_alignment := trimmed_alignment self\<rparr>)
      else
        (case trimmed_alignment self of
           None \<Rightarrow> Inr (self\<lparr>perfect_trimmed_alignment := None\<rparr>)
         | Some ta \<Rightarrow>
             (case ambiguous_loop ta [0..<get_alignment_length ta] [] of
                Inl e \<Rightarrow> Inl e
              | Inr ambiguous_bases \<Rightarrow>
                  if ambiguous_bases = []
                  then Inr (self\<lparr>perfect_trimmed_alignment := trimmed_alignment self\<rparr>)
                  else
                    (let ambiguous_bases' =
                           0 # map int ambiguous_bases @ [int (get_alignment_length ta) - 1]
                     in case snd (maximum_loop ambiguous_bases'
                                    [0..<length ambiguous_bases'] (0, None)) of
                          None \<Rightarrow> Inr (self\<lparr>perfect_trimmed_alignment := None\<rparr>)
                        | Some (p0, p1) \<Rightarrow>
                            Inr (self\<lparr>perfect_trimmed_alignment := Some
                              (map (\<lambda>sequence. slice_record sequence
                                      (Some (ambiguous_bases' ! p0 + 1))
                                      (Some (ambiguous_bases' ! p1))) ta)\<rparr>)))))"

subsection \<open>Vocabulary of the properties\<close>

text \<open>
  An alignment as the loader hands it over: the object after \<^verbatim>\<open>__init__\<close> with the
  alignment read, and nothing computed yet.
\<close>

definition loaded :: "alignment_t \<Rightarrow> align" where
  "loaded al =
     \<lparr>alignment = al, ploc = None, trimmed_alignment = None,
      trimmed_alignment_summary = None, perfect_trimmed_alignment = None, stdout = []\<rparr>"

definition seq_record :: "string \<Rightarrow> string \<Rightarrow> seqrecord" where
  "seq_record n s = \<lparr>ident = n, name = n, description = ''uce|'' @ n, seq = s\<rparr>"

text \<open>No record has a gap symbol; no record has the ambiguity symbol.\<close>

definition no_gaps :: "alignment_t \<Rightarrow> bool" where
  "no_gaps al = list_all (\<lambda>r. CHR ''-'' \<notin> set (seq r)) al"

definition no_ambiguous :: "alignment_t \<Rightarrow> bool" where
  "no_ambiguous al = list_all (\<lambda>r. CHR ''N'' \<notin> set (seq r)) al"

text \<open>
  A column is ambiguous when some record has the symbol \<^verbatim>\<open>N\<close> there; the ambiguous
  columns of an alignment, in increasing order.
\<close>

definition ambiguous_column :: "alignment_t \<Rightarrow> nat \<Rightarrow> bool" where
  "ambiguous_column al col = list_ex (\<lambda>r. col < length (seq r) \<and> seq r ! col = CHR ''N'') al"

definition ambiguous_columns :: "alignment_t \<Rightarrow> nat list" where
  "ambiguous_columns al = filter (ambiguous_column al) [0..<get_alignment_length al]"

text \<open>Two alignments carry the same identifiers, names and descriptions, in order.\<close>

definition same_metadata :: "alignment_t \<Rightarrow> alignment_t \<Rightarrow> bool" where
  "same_metadata ta al =
     (map ident ta = map ident al \<and> map name ta = map name al \<and>
      map description ta = map description al)"

text \<open>
  The index that the probe-excluding loop deletes is read only when \<open>running_probe\<close>
  is set; there it has to be an index of a column, which has one symbol per record.
\<close>

definition probe_index_ok :: "alignment_t \<Rightarrow> int option \<Rightarrow> bool \<Rightarrow> bool" where
  "probe_index_ok al k running_probe =
     (running_probe \<longrightarrow>
        (case k of None \<Rightarrow> False | Some i \<Rightarrow> - int (length al) \<le> i \<and> i < int (length al)))"

text \<open>Alignments used as concrete inputs.\<close>

definition two_columns :: alignment_t where
  "two_columns = [seq_record ''s1'' ''AA'', seq_record ''s2'' ''AA'']"

definition four_columns :: alignment_t where
  "four_columns = [seq_record ''s1'' ''AAAT'', seq_record ''s2'' ''AAAA'']"

definition gap_free :: alignment_t where
  "gap_free = [seq_record ''s1'' ''ACGT'', seq_record ''s2'' ''ACGT'']"

definition with_probe :: alignment_t where
  "with_probe =
     [seq_record ''s1'' ''ACGT'', seq_record ''s2'' ''ACGT'', seq_record ''probe'' ''-TG-'']"

definition one_ambiguity :: alignment_t where
  "one_ambiguity = [seq_record ''s1'' ''ACNGT'', seq_record ''s2'' ''ACNGT'']"

section \<open>Properties\<close>

subsection \<open>Columns of a rectangular alignment\<close>

lemma get_column_rect:
  "\<forall>r\<in>set al. col < length (seq r) \<Longrightarrow> get_column al col = Inr (map (\<lambda>r. seq r ! col) al)"
  by (induction al) auto

lemma rectangular_col:
  "rectangular al \<Longrightarrow> col < get_alignment_length al \<Longrightarrow> \<forall>r\<in>set al. col < length (seq r)"
  by (simp add: rectangular_def list_all_iff)

lemma rectangular_cols:
  "rectangular al \<Longrightarrow> \<forall>c\<in>set [0..<get_alignment_length al]. \<forall>r\<in>set al. c < length (seq r)"
  by (simp add: rectangular_def list_all_iff)

subsection \<open>The conservation indicators\<close>

lemma py_del_ok:
  "- int (length xs) \<le> i \<Longrightarrow> i < int (length xs) \<Longrightarrow> \<exists>ys. py_del xs (Some i) = Inr ys"
  by (simp add: py_del_def Let_def)

lemma differences_loop_length:
  "differences_loop al p k rp cols acc = Inr d \<Longrightarrow> length d = length acc + length cols"
proof (induction cols arbitrary: acc)
  case Nil
  then show ?case by simp
next
  case (Cons c cs)
  then show ?case
    by (fastforce split: sum.splits if_splits)
qed

lemma differences_loop_ok:
  assumes "\<forall>c\<in>set cols. \<forall>r\<in>set al. c < length (seq r)"
    and "probe_index_ok al k rp"
  shows "\<exists>d. differences_loop al p k rp cols acc = Inr d"
  using assms(1)
proof (induction cols arbitrary: acc)
  case Nil
  then show ?case by simp
next
  case (Cons c cs)
  have col: "get_column al c = Inr (map (\<lambda>r. seq r ! c) al)"
    using Cons.prems by (simp add: get_column_rect)
  show ?case
  proof (cases rp)
    case False
    then show ?thesis using col Cons by simp
  next
    case True
    then obtain i where i: "k = Some i" "- int (length al) \<le> i" "i < int (length al)"
      using assms(2) by (auto simp: probe_index_ok_def split: option.splits)
    then obtain ys where "py_del (map (\<lambda>r. seq r ! c) al) k = Inr ys"
      using py_del_ok [of "map (\<lambda>r. seq r ! c) al" i] by auto
    then show ?thesis using col Cons True by (simp add: column_difference_probe_def)
  qed
qed

lemma column_differences_ok:
  assumes "rectangular al" and "probe_index_ok al k rp"
  shows "\<exists>d. column_differences al p k rp = Inr d \<and> length d = get_alignment_length al"
proof -
  obtain d where d: "differences_loop al p k rp [0..<get_alignment_length al] [] = Inr d"
    using differences_loop_ok [OF rectangular_cols [OF assms(1)] assms(2)] by blast
  then have "length d = get_alignment_length al"
    using differences_loop_length by fastforce
  then show ?thesis using d by (simp add: column_differences_def)
qed

subsection \<open>A window of one column\<close>

lemma py_slice_zero: "py_slice (Some 0) (Some 0) xs = []"
  by (simp add: py_slice_def norm_index_def)

text \<open>
  C10. With \<open>window_size = 1\<close> the convolution is sliced to \<^verbatim>\<open>[0:-0]\<close>, which is
  \<^verbatim>\<open>[0:0]\<close>, so no position is left and \<open>running_average\<close> returns \<open>(None, None)\<close> for
  every threshold, whatever the columns hold. The alignment is one of the data model:
  rectangular, with at least one column.
\<close>

theorem window_one_fails:
  assumes rect: "rectangular al"
    and cols: "0 < get_alignment_length al"
    and k: "probe_index_ok al k running_probe"
  shows "running_average al 1 threshold proportion k running_probe = Inr (None, None)"
proof -
  obtain d where d: "column_differences al proportion k running_probe = Inr d"
    and len: "length d = get_alignment_length al"
    using column_differences_ok [OF rect k] by blast
  have "d \<noteq> []" using len cols by auto
  then show ?thesis
    using d by (simp add: running_average_def convolve_def py_slice_zero)
qed

theorem window_one_fails_witness:
  "rectangular two_columns \<and> 0 < get_alignment_length two_columns \<and>
   probe_index_ok two_columns None False \<and>
   running_average two_columns 1 (1 / 2) (3 / 10) None False = Inr (None, None)"
proof -
  have r: "rectangular two_columns" by code_simp
  have c: "0 < get_alignment_length two_columns" by code_simp
  have k: "probe_index_ok two_columns None False" by (simp add: probe_index_ok_def)
  show ?thesis
    using r c k window_one_fails [OF r c k, of "1 / 2" "3 / 10"] by simp
qed

subsection \<open>Raising the threshold\<close>

lemma sorted_hd_le: "sorted ys \<Longrightarrow> x \<in> set ys \<Longrightarrow> hd ys \<le> (x::nat)"
  by (cases ys) auto

lemma sorted_le_last: "sorted ys \<Longrightarrow> x \<in> set ys \<Longrightarrow> (x::nat) \<le> last ys"
  by (induction ys) (auto split: if_splits)

lemma filter_mono_ends:
  assumes imp: "\<And>x. P2 x \<Longrightarrow> P1 x" and ne: "filter P2 [0..<n] \<noteq> []"
  shows "hd (filter P1 [0..<n]) \<le> hd (filter P2 [0..<n]) \<and>
         last (filter P2 [0..<n]) \<le> last (filter P1 [0..<n])"
proof -
  have sub: "set (filter P2 [0..<n]) \<subseteq> set (filter P1 [0..<n])"
    using imp by auto
  have s: "sorted (filter P1 [0..<n])" by (rule sorted_wrt_filter) simp
  have "hd (filter P2 [0..<n]) \<in> set (filter P2 [0..<n])"
    and "last (filter P2 [0..<n]) \<in> set (filter P2 [0..<n])"
    using ne by (rule hd_in_set, rule last_in_set)
  then show ?thesis using sub s sorted_hd_le sorted_le_last by blast
qed

text \<open>
  C8. For one alignment and one window size, if \<open>running_average\<close> selects a span at
  threshold \<open>t1\<close> and one at \<open>t2\<close> with \<open>t1 \<le> t2\<close>, the span at \<open>t2\<close> is not wider:
  \<open>end - start\<close> at \<open>t2\<close> is at most \<open>end - start\<close> at \<open>t1\<close>.
\<close>

theorem threshold_monotone:
  assumes r1: "running_average al window_size t1 proportion k running_probe = Inr (Some s1, Some e1)"
    and r2: "running_average al window_size t2 proportion k running_probe = Inr (Some s2, Some e2)"
    and le: "t1 \<le> t2"
  shows "e2 - s2 \<le> e1 - s1"
proof -
  from r1 obtain d full where
    d: "column_differences al proportion k running_probe = Inr d"
    and w: "\<not> window_size < 0"
    and full: "convolve (map of_int d) (replicate (nat window_size) (1 / of_int window_size)) = Inr full"
    by (auto simp: running_average_def Let_def split: sum.splits if_splits)
  define ra where "ra = py_slice (Some (window_size - 1)) (Some (- (window_size - 1))) full"
  define g1 where "g1 = filter (\<lambda>i. ra ! i \<ge> t1) [0..<length ra]"
  define g2 where "g2 = filter (\<lambda>i. ra ! i \<ge> t2) [0..<length ra]"
  have e1: "g1 \<noteq> [] \<and> s1 = int (hd g1) \<and> e1 = int (last g1) + window_size"
    using r1 d w full by (auto simp: running_average_def Let_def ra_def g1_def split: if_splits)
  have e2: "g2 \<noteq> [] \<and> s2 = int (hd g2) \<and> e2 = int (last g2) + window_size"
    using r2 d w full by (auto simp: running_average_def Let_def ra_def g2_def split: if_splits)
  have "hd g1 \<le> hd g2 \<and> last g2 \<le> last g1"
    unfolding g1_def g2_def
    using filter_mono_ends [of "\<lambda>i. ra ! i \<ge> t2" "\<lambda>i. ra ! i \<ge> t1" "length ra"] le e2
    by (auto simp: g2_def)
  then show ?thesis using e1 e2 by simp
qed

theorem threshold_monotone_witness:
  "running_average four_columns 2 (1 / 2) (3 / 10) None False = Inr (Some 0, Some 4) \<and>
   running_average four_columns 2 1 (3 / 10) None False = Inr (Some 0, Some 3) \<and>
   (1 / 2 :: rat) \<le> 1 \<and> (3 :: int) - 0 \<le> 4 - 0"
proof -
  have r1: "running_average four_columns 2 (1 / 2) (3 / 10) None False = Inr (Some 0, Some 4)"
    by code_simp
  have r2: "running_average four_columns 2 1 (3 / 10) None False = Inr (Some 0, Some 3)"
    by code_simp
  have le: "(1 / 2 :: rat) \<le> 1" by simp
  show ?thesis
    using r1 r2 le threshold_monotone [OF r1 r2 le] by simp
qed

subsection \<open>Failure of \<^verbatim>\<open>running_average\<close>\<close>

text \<open>
  The exact convolution meets what is used of numpy, and \<open>running_average\<close> is
  \<open>running_average_np\<close> with it.
\<close>

lemma exact_convolve_contract: "numpy_contract exact_convolve"
  unfolding numpy_contract_def exact_convolve_def convolve_def by auto

lemma running_average_exact:
  "running_average al window_size threshold proportion k running_probe =
     running_average_np exact_convolve (\<lambda>x. threshold \<le> x) al window_size proportion k running_probe"
  by (simp add: running_average_def running_average_np_def exact_convolve_def clip_def Let_def
           split: sum.splits)

lemma slice_too_wide:
  assumes "0 < w" "n < w" "length xs = n + w - 1"
  shows "py_slice (Some (int w - 1)) (Some (- (int w - 1))) xs = []"
  using assms by (auto simp: py_slice_def norm_index_def Let_def)

lemma clip_failure:
  "clip window_size meets full = (None, None) \<longleftrightarrow>
     (\<forall>x\<in>set (py_slice (Some (window_size - 1)) (Some (- (window_size - 1))) full). \<not> meets x)"
proof -
  define ra where "ra = py_slice (Some (window_size - 1)) (Some (- (window_size - 1))) full"
  have "filter (\<lambda>i. meets (ra ! i)) [0..<length ra] = [] \<longleftrightarrow> (\<forall>x\<in>set ra. \<not> meets x)"
    by (auto simp: filter_empty_conv all_set_conv_all_nth)
  then show ?thesis
    unfolding clip_def Let_def ra_def [symmetric] by auto
qed

lemma differences_loop_bad:
  assumes col: "\<forall>r\<in>set al. c < length (seq r)" and bad: "\<not> probe_index_ok al k rp"
  shows "differences_loop al p k rp (c # cs) acc = Inl TypeError \<or>
         differences_loop al p k rp (c # cs) acc = Inl IndexError"
proof -
  have g: "get_column al c = Inr (map (\<lambda>r. seq r ! c) al)"
    using col by (simp add: get_column_rect)
  have rp: rp using bad by (simp add: probe_index_ok_def)
  have "py_del (map (\<lambda>r. seq r ! c) al) k = Inl TypeError \<or>
        py_del (map (\<lambda>r. seq r ! c) al) k = Inl IndexError"
    using bad by (auto simp: probe_index_ok_def py_del_def Let_def split: option.splits)
  then show ?thesis
    using g rp by (auto simp: column_difference_probe_def)
qed

lemma column_differences_bad:
  assumes rect: "rectangular al" and cols: "0 < get_alignment_length al"
    and bad: "\<not> probe_index_ok al k rp"
  shows "column_differences al p k rp = Inl TypeError \<or>
         column_differences al p k rp = Inl IndexError"
proof -
  have "[0..<get_alignment_length al] = 0 # [Suc 0..<get_alignment_length al]"
    using cols by (simp add: upt_conv_Cons)
  then show ?thesis
    unfolding column_differences_def
    using differences_loop_bad [OF rectangular_col [OF rect cols] bad] by simp
qed

text \<open>
  C5, as amended. Take an alignment of the data model (rectangular, at least one
  column), and numpy's convolution and comparison whatever their double-precision
  values are. If \<open>running_probe\<close> is set and \<open>k\<close> is not an index of a record,
  \<open>running_average\<close> raises TypeError or IndexError. Otherwise, for a window size below
  one it raises ValueError. Otherwise it raises nothing and returns a pair, and the pair
  is \<open>(None, None)\<close> exactly when no position of the windowed averages (the slice
  \<^verbatim>\<open>[window_size-1:-(window_size-1)]\<close> of the convolution) meets the threshold; in
  particular it is \<open>(None, None)\<close> when \<open>window_size\<close> is greater than the column count.
\<close>

theorem running_average_failure:
  assumes np: "numpy_contract np_convolve"
    and rect: "rectangular al"
    and cols: "0 < get_alignment_length al"
  shows
    "(\<not> probe_index_ok al k running_probe \<longrightarrow>
        running_average_np np_convolve meets al window_size proportion k running_probe =
          Inl TypeError \<or>
        running_average_np np_convolve meets al window_size proportion k running_probe =
          Inl IndexError) \<and>
     (probe_index_ok al k running_probe \<and> window_size \<le> 0 \<longrightarrow>
        running_average_np np_convolve meets al window_size proportion k running_probe =
          Inl ValueError) \<and>
     (probe_index_ok al k running_probe \<and> 0 < window_size \<longrightarrow>
        (\<exists>d full.
           column_differences al proportion k running_probe = Inr d \<and>
           np_convolve d window_size = Inr full \<and>
           (\<exists>r. running_average_np np_convolve meets al window_size proportion k running_probe =
                  Inr r) \<and>
           (running_average_np np_convolve meets al window_size proportion k running_probe =
              Inr (None, None) \<longleftrightarrow>
            (\<forall>x\<in>set (py_slice (Some (window_size - 1)) (Some (- (window_size - 1))) full).
               \<not> meets x)) \<and>
           (int (get_alignment_length al) < window_size \<longrightarrow>
              running_average_np np_convolve meets al window_size proportion k running_probe =
                Inr (None, None))))"
proof (intro conjI impI)
  assume "\<not> probe_index_ok al k running_probe"
  then show "running_average_np np_convolve meets al window_size proportion k running_probe =
          Inl TypeError \<or>
        running_average_np np_convolve meets al window_size proportion k running_probe =
          Inl IndexError"
    using column_differences_bad [OF rect cols, of k running_probe proportion]
    by (auto simp: running_average_np_def)
next
  assume a: "probe_index_ok al k running_probe \<and> window_size \<le> 0"
  then obtain d where d: "column_differences al proportion k running_probe = Inr d"
    using column_differences_ok [OF rect, of k running_probe proportion] by blast
  have "np_convolve d window_size = Inl ValueError"
    using np a by (simp add: numpy_contract_def)
  then show "running_average_np np_convolve meets al window_size proportion k running_probe =
          Inl ValueError"
    using d by (simp add: running_average_np_def)
next
  assume a: "probe_index_ok al k running_probe \<and> 0 < window_size"
  then obtain d where d: "column_differences al proportion k running_probe = Inr d"
    and len: "length d = get_alignment_length al"
    using column_differences_ok [OF rect, of k running_probe proportion] by blast
  have ne: "d \<noteq> []" using len cols by auto
  have "\<not> (window_size \<le> 0 \<or> d = [])" using a ne by simp
  then obtain full where full: "np_convolve d window_size = Inr full"
    and flen: "length full = length d + nat window_size - 1"
    using np unfolding numpy_contract_def by meson
  have res: "running_average_np np_convolve meets al window_size proportion k running_probe =
               Inr (clip window_size meets full)"
    using d full by (simp add: running_average_np_def)
  have iff: "running_average_np np_convolve meets al window_size proportion k running_probe =
              Inr (None, None) \<longleftrightarrow>
            (\<forall>x\<in>set (py_slice (Some (window_size - 1)) (Some (- (window_size - 1))) full).
               \<not> meets x)"
    unfolding res using clip_failure [of window_size meets full] by simp
  have wide: "running_average_np np_convolve meets al window_size proportion k running_probe =
                Inr (None, None)"
    if "int (get_alignment_length al) < window_size"
  proof -
    have "length d < nat window_size" using that len by linarith
    then have "py_slice (Some (int (nat window_size) - 1)) (Some (- (int (nat window_size) - 1))) full = []"
      using flen a by (intro slice_too_wide [of "nat window_size" "length d"]) auto
    then have "py_slice (Some (window_size - 1)) (Some (- (window_size - 1))) full = []"
      using a by simp
    then show ?thesis using iff by simp
  qed
  show "\<exists>d full.
           column_differences al proportion k running_probe = Inr d \<and>
           np_convolve d window_size = Inr full \<and>
           (\<exists>r. running_average_np np_convolve meets al window_size proportion k running_probe =
                  Inr r) \<and>
           (running_average_np np_convolve meets al window_size proportion k running_probe =
              Inr (None, None) \<longleftrightarrow>
            (\<forall>x\<in>set (py_slice (Some (window_size - 1)) (Some (- (window_size - 1))) full).
               \<not> meets x)) \<and>
           (int (get_alignment_length al) < window_size \<longrightarrow>
              running_average_np np_convolve meets al window_size proportion k running_probe =
                Inr (None, None))"
    using d full res iff wide by blast
qed

theorem running_average_failure_witness:
  "numpy_contract exact_convolve \<and> rectangular four_columns \<and>
   0 < get_alignment_length four_columns \<and>
   probe_index_ok four_columns None False \<and> (0 :: int) < 5 \<and>
   int (get_alignment_length four_columns) < 5 \<and>
   running_average_np exact_convolve (\<lambda>x. 1 / 2 \<le> x) four_columns 5 (3 / 10) None False =
     Inr (None, None) \<and>
   running_average_np exact_convolve (\<lambda>x. 1 / 2 \<le> x) four_columns 0 (3 / 10) None False =
     Inl ValueError \<and>
   running_average_np exact_convolve (\<lambda>x. 1 / 2 \<le> x) four_columns 5 (3 / 10) None True =
     Inl TypeError"
proof -
  have np: "numpy_contract exact_convolve" by (rule exact_convolve_contract)
  have r: "rectangular four_columns" by code_simp
  have c: "0 < get_alignment_length four_columns" by code_simp
  have k: "probe_index_ok four_columns None False" by (simp add: probe_index_ok_def)
  have nk: "\<not> probe_index_ok four_columns None True" by (simp add: probe_index_ok_def)
  have n: "int (get_alignment_length four_columns) < 5" by code_simp
  have t: "running_average_np exact_convolve (\<lambda>x. 1 / 2 \<le> x) four_columns 5 (3 / 10) None True \<noteq>
             Inl IndexError"
    by code_simp
  have a: "running_average_np exact_convolve (\<lambda>x. 1 / 2 \<le> x) four_columns 5 (3 / 10) None False =
     Inr (None, None)"
    using k n running_average_failure [OF np r c, of None False "\<lambda>x. 1 / 2 \<le> x" 5 "3 / 10"]
    by auto
  have b: "running_average_np exact_convolve (\<lambda>x. 1 / 2 \<le> x) four_columns 0 (3 / 10) None False =
     Inl ValueError"
    using k running_average_failure [OF np r c, of None False "\<lambda>x. 1 / 2 \<le> x" 0 "3 / 10"]
    by auto
  have d: "running_average_np exact_convolve (\<lambda>x. 1 / 2 \<le> x) four_columns 5 (3 / 10) None True =
     Inl TypeError"
    using nk t running_average_failure [OF np r c, of None True "\<lambda>x. 1 / 2 \<le> x" 5 "3 / 10"]
    by auto
  show ?thesis using np r c k n a b d by simp
qed

text \<open>
  C5, as stated, fails in three places. Where the window is exactly as wide as the
  alignment there is one window, and two conserved columns under a window of two give
  the span \<open>(0, 2)\<close>, not the failure value. A window size of zero raises ValueError, and
  the probe-excluding loop without an index raises TypeError, where the claim has no
  uncaught exception. The numbers of the first case, \<open>1/2\<close> and \<open>1\<close>, are exact in
  binary floating point.
\<close>

theorem window_equal_columns_counterexample:
  "2 \<ge> int (get_alignment_length two_columns) \<and>
   running_average two_columns 2 (1 / 2) (3 / 10) None False = Inr (Some 0, Some 2) \<and>
   running_average two_columns 0 (1 / 2) (3 / 10) None False = Inl ValueError \<and>
   running_average two_columns 2 (1 / 2) (3 / 10) None True = Inl TypeError"
  by code_simp

subsection \<open>Alignments without ambiguous columns\<close>

lemma ambiguous_loop_none:
  assumes "\<forall>c\<in>set cols. \<forall>r\<in>set ta. c < length (seq r)" and "no_ambiguous ta"
  shows "ambiguous_loop ta cols acc = Inr acc"
  using assms(1)
proof (induction cols)
  case Nil
  then show ?case by simp
next
  case (Cons c cs)
  have col: "get_column ta c = Inr (map (\<lambda>r. seq r ! c) ta)"
    using Cons.prems by (simp add: get_column_rect)
  have "CHR ''N'' \<notin> set (map (\<lambda>r. seq r ! c) ta)"
  proof
    assume "CHR ''N'' \<in> set (map (\<lambda>r. seq r ! c) ta)"
    then obtain r where r: "r \<in> set ta" "seq r ! c = CHR ''N''" by auto
    then have "c < length (seq r)" using Cons.prems by simp
    then have "CHR ''N'' \<in> set (seq r)" using r(2) nth_mem by metis
    then show False using assms(2) r(1) by (simp add: no_ambiguous_def list_all_iff)
  qed
  then show ?case using col Cons by simp
qed

text \<open>
  C9. A trimmed alignment (rectangular) in which no record has the symbol \<^verbatim>\<open>N\<close> is
  returned verbatim as the perfect trimmed alignment; running the refiner again on the
  result returns the same object state, so it is idempotent there; and the trimmed
  alignment \<^verbatim>\<open>None\<close> passes through as \<^verbatim>\<open>None\<close>.
\<close>

theorem refiner_verbatim:
  assumes rect: "rectangular ta" and clean: "no_ambiguous ta"
  shows "trim_ambiguous_bases (self\<lparr>trimmed_alignment := Some ta\<rparr>) =
           Inr (self\<lparr>trimmed_alignment := Some ta, perfect_trimmed_alignment := Some ta\<rparr>) \<and>
         trim_ambiguous_bases
             (self\<lparr>trimmed_alignment := Some ta, perfect_trimmed_alignment := Some ta\<rparr>) =
           Inr (self\<lparr>trimmed_alignment := Some ta, perfect_trimmed_alignment := Some ta\<rparr>) \<and>
         trim_ambiguous_bases (self\<lparr>trimmed_alignment := None\<rparr>) =
           Inr (self\<lparr>trimmed_alignment := None, perfect_trimmed_alignment := None\<rparr>)"
proof -
  have scan: "ambiguous_loop ta [0..<get_alignment_length ta] [] = Inr []"
    using ambiguous_loop_none [OF rectangular_cols [OF rect] clean] .
  show ?thesis
    using scan by (simp add: trim_ambiguous_bases_def truthy_alignment_def)
qed

theorem refiner_verbatim_witness:
  "rectangular gap_free \<and> no_ambiguous gap_free \<and>
   trim_ambiguous_bases ((loaded gap_free)\<lparr>trimmed_alignment := Some gap_free\<rparr>) =
     Inr ((loaded gap_free)\<lparr>trimmed_alignment := Some gap_free,
                            perfect_trimmed_alignment := Some gap_free\<rparr>)"
proof -
  have r: "rectangular gap_free" by code_simp
  have c: "no_ambiguous gap_free" by code_simp
  show ?thesis
    using r c refiner_verbatim [OF r c, of "loaded gap_free"] by simp
qed

subsection \<open>The loop over the records\<close>

lemma locate_other:
  "method \<noteq> ''edges'' \<Longrightarrow> method \<noteq> ''running'' \<Longrightarrow> method \<noteq> ''running-probe'' \<Longrightarrow>
   locate al method w t = Inr (None, None)"
  by (simp add: locate_def)

lemma trim_record_static_midpoint:
  "b \<noteq> 0 \<Longrightarrow> trim_record ''static'' False (Some b) pl start end_col sequence ta = Inl TypeError"
  by (simp add: trim_record_def)

lemma trim_record_remove_probe:
  "trim_record method True bases (Some pl) start end_col sequence (Some rs) = Inl NameError"
  by (cases pl) (simp add: trim_record_def record_formatter_def global_sequence_def Let_def)

lemma trim_record_ignores_bases:
  "trim_record method True bases pl start end_col sequence ta =
   trim_record method True None pl start end_col sequence ta"
  by (simp add: trim_record_def Let_def)

lemma trim_loop_ignores_bases:
  "trim_loop method True bases pl start end_col rs ta =
   trim_loop method True None pl start end_col rs ta"
proof (induction rs arbitrary: ta)
  case Nil
  then show ?case by simp
next
  case (Cons r rs)
  show ?case
    using trim_record_ignores_bases [of _ bases pl start end_col r ta] Cons
    by (simp split: sum.splits)
qed

text \<open>
  C2, on the code. Static trimming without probe removal passes the integer midpoint to
  \<^verbatim>\<open>_base_checker\<close>, whose first statement takes \<^verbatim>\<open>len(loc)\<close>: for every alignment
  with a record and every truthy \<open>bases\<close>, whether it exceeds a flank or not, the call
  raises TypeError instead of dropping the alignment.
\<close>

theorem static_midpoint_raises:
  assumes "alignment self \<noteq> []" and "b \<noteq> 0"
  shows "trim_alignment self ''static'' False (Some b) consensus window_size threshold =
           Inl TypeError"
proof -
  obtain r rs where al: "alignment self = r # rs"
    using assms(1) by (cases "alignment self") auto
  show ?thesis
    using assms(2) al
    by (simp add: trim_alignment_def locate_other trim_record_static_midpoint)
qed

theorem static_midpoint_raises_witness:
  "alignment (loaded gap_free) \<noteq> [] \<and> (5 :: int) \<noteq> 0 \<and>
   trim_alignment (loaded gap_free) ''static'' False (Some 5) True 20 (1 / 2) = Inl TypeError"
proof -
  have a: "alignment (loaded gap_free) \<noteq> []" by (simp add: loaded_def gap_free_def)
  have b: "(5 :: int) \<noteq> 0" by simp
  show ?thesis
    using a b static_midpoint_raises [OF a b, of True 20 "1 / 2"] by simp
qed

text \<open>
  C3, on the code. With \<^verbatim>\<open>remove_probe\<close> set, the branch \<^verbatim>\<open>remove_probe and self.ploc\<close>
  comes before the branch for static trimming with probe removal, so \<open>bases\<close> has no
  effect on the result: the call behaves as the one without \<open>bases\<close>. With a located
  probe and a record it is plain probe removal, which raises NameError in
  \<^verbatim>\<open>_record_formatter\<close>; no flank of width \<open>bases\<close> is built.
\<close>

theorem static_probe_removal_masked:
  "trim_alignment self ''static'' True bases consensus window_size threshold =
     trim_alignment self ''static'' True None consensus window_size threshold \<and>
   (alignment self \<noteq> [] \<and> ploc self = Some pl \<longrightarrow>
      trim_alignment self ''static'' True bases consensus window_size threshold = Inl NameError)"
proof
  show "trim_alignment self ''static'' True bases consensus window_size threshold =
        trim_alignment self ''static'' True None consensus window_size threshold"
    by (simp add: trim_alignment_def locate_other trim_loop_ignores_bases [of "''static''" bases])
next
  show "alignment self \<noteq> [] \<and> ploc self = Some pl \<longrightarrow>
        trim_alignment self ''static'' True bases consensus window_size threshold = Inl NameError"
  proof
    assume a: "alignment self \<noteq> [] \<and> ploc self = Some pl"
    then obtain r rs where al: "alignment self = r # rs"
      by (cases "alignment self") auto
    show "trim_alignment self ''static'' True bases consensus window_size threshold = Inl NameError"
      using a al by (simp add: trim_alignment_def locate_other trim_record_remove_probe)
  qed
qed

theorem static_probe_removal_masked_witness:
  "alignment ((loaded with_probe)\<lparr>ploc := Some (1, 3)\<rparr>) \<noteq> [] \<and>
   ploc ((loaded with_probe)\<lparr>ploc := Some (1, 3)\<rparr>) = Some (1, 3) \<and>
   get_probe_location (loaded with_probe) = Inr ((loaded with_probe)\<lparr>ploc := Some (1, 3)\<rparr>) \<and>
   trim_alignment ((loaded with_probe)\<lparr>ploc := Some (1, 3)\<rparr>) ''static'' True (Some 1) True 20 (1 / 2) =
     Inl NameError"
proof -
  have a: "alignment ((loaded with_probe)\<lparr>ploc := Some (1, 3)\<rparr>) \<noteq> []"
    by (simp add: loaded_def with_probe_def)
  have p: "ploc ((loaded with_probe)\<lparr>ploc := Some (1, 3)\<rparr>) = Some (1, 3)"
    by simp
  have g: "get_probe_location (loaded with_probe) = Inr ((loaded with_probe)\<lparr>ploc := Some (1, 3)\<rparr>)"
    by (simp add: get_probe_location_def loaded_def with_probe_def seq_record_def)
  have "trim_alignment ((loaded with_probe)\<lparr>ploc := Some (1, 3)\<rparr>) ''static'' True (Some 1)
          True 20 (1 / 2) = Inl NameError"
    using a p static_probe_removal_masked
      [of "(loaded with_probe)\<lparr>ploc := Some (1, 3)\<rparr>" "Some 1" True 20 "1 / 2" "(1, 3)"]
    by blast
  then show ?thesis
    using a p g by simp
qed

text \<open>
  C7, on the code. \<^verbatim>\<open>_record_formatter\<close> copies id, name and description from a name
  \<^verbatim>\<open>sequence\<close> that it does not have, so it raises NameError for every argument; a
  trimming with probe removal of an alignment with a record and a located probe, under
  any trimming method whose region is found, therefore ends in NameError and no record
  carrying the metadata is produced.
\<close>

theorem probe_removal_raises:
  assumes "locate (alignment self) method window_size threshold = Inr region"
    and "method \<noteq> ''notrim''"
    and "alignment self \<noteq> []"
    and "ploc self = Some pl"
  shows "record_formatter temp = Inl NameError \<and>
         trim_alignment self method True bases consensus window_size threshold = Inl NameError"
proof -
  obtain r rs where al: "alignment self = r # rs"
    using assms(3) by (cases "alignment self") auto
  have "trim_alignment self method True bases consensus window_size threshold = Inl NameError"
    using assms al
    by (cases region) (simp add: trim_alignment_def trim_record_remove_probe)
  then show ?thesis
    by (simp add: record_formatter_def global_sequence_def)
qed

theorem probe_removal_raises_witness:
  "locate (alignment ((loaded with_probe)\<lparr>ploc := Some (1, 3)\<rparr>)) ''edges'' 20 (1 / 2) =
     Inr (Some 1, Some 2) \<and>
   ''edges'' \<noteq> ''notrim'' \<and>
   trim_alignment ((loaded with_probe)\<lparr>ploc := Some (1, 3)\<rparr>) ''edges'' True None True 20 (1 / 2) =
     Inl NameError"
proof -
  have l: "locate (alignment ((loaded with_probe)\<lparr>ploc := Some (1, 3)\<rparr>)) ''edges'' 20 (1 / 2) =
     Inr (Some 1, Some 2)"
    by code_simp
  have m: "''edges'' \<noteq> ''notrim''" by simp
  have a: "alignment ((loaded with_probe)\<lparr>ploc := Some (1, 3)\<rparr>) \<noteq> []"
    by (simp add: loaded_def with_probe_def)
  have p: "ploc ((loaded with_probe)\<lparr>ploc := Some (1, 3)\<rparr>) = Some (1, 3)"
    by simp
  show ?thesis
    using l m probe_removal_raises [OF l m a p, of "[]" None True] by simp
qed

subsection \<open>Edges of an alignment without gaps\<close>

lemma alignment_length_Nil: "get_alignment_length [] = 0"
  by (simp add: get_alignment_length_def)

lemma no_gaps_column:
  assumes "no_gaps al" and "\<forall>r\<in>set al. c < length (seq r)"
  shows "CHR ''-'' \<notin> set (map (\<lambda>r. seq r ! c) al)"
proof
  assume "CHR ''-'' \<in> set (map (\<lambda>r. seq r ! c) al)"
  then obtain r where r: "r \<in> set al" "seq r ! c = CHR ''-''" by auto
  then have "c < length (seq r)" using assms(2) by simp
  then have "CHR ''-'' \<in> set (seq r)" using r(2) nth_mem by metis
  then show False using assms(1) r(1) by (simp add: no_gaps_def list_all_iff)
qed

lemma find_ends_loop_no_gaps:
  assumes "no_gaps al" and "\<forall>r\<in>set al. c < length (seq r)"
  shows "find_ends_loop al (c # cs) col = Inr c"
  using no_gaps_column [OF assms] get_column_rect [OF assms(2)] by simp

lemma find_ends_no_gaps:
  assumes rect: "rectangular al" and gaps: "no_gaps al" and cols: "0 < get_alignment_length al"
  shows "find_ends al True = Inr 0" and "find_ends al False = Inr (get_alignment_length al - 1)"
proof -
  let ?n = "get_alignment_length al"
  have fwd: "[0..<?n] = 0 # [Suc 0..<?n]"
    using cols by (simp add: upt_conv_Cons)
  have bwd: "rev [0..<?n] = (?n - 1) # rev [0..<?n - 1]"
    using cols by (cases ?n) simp_all
  have c0: "\<forall>r\<in>set al. 0 < length (seq r)"
    using rectangular_col [OF rect cols] .
  have cn: "\<forall>r\<in>set al. ?n - 1 < length (seq r)"
    using rectangular_col [OF rect, of "?n - 1"] cols by simp
  show "find_ends al True = Inr 0"
    unfolding find_ends_def Let_def using find_ends_loop_no_gaps [OF gaps c0] fwd by simp
  show "find_ends al False = Inr (?n - 1)"
    unfolding find_ends_def Let_def using find_ends_loop_no_gaps [OF gaps cn] bwd by simp
qed

lemma trim_loop_slices:
  assumes "method = ''edges'' \<or> method = ''running'' \<or> method = ''running-probe''"
    and "0 \<le> s" and "e \<noteq> 0"
  shows "trim_loop method False bases pl (Some s) (Some e) rs (Some acc) =
           Inr (Some (acc @ map (\<lambda>r. slice_record r (Some s) (Some e)) rs))"
proof (induction rs arbitrary: acc)
  case Nil
  then show ?case by simp
next
  case (Cons r rs)
  have "trim_record method False bases pl (Some s) (Some e) r (Some acc) =
          Inr (Some (acc @ [slice_record r (Some s) (Some e)]), False)"
    using assms by (auto simp: trim_record_def append_record_def)
  then show ?case using Cons by simp
qed

lemma slice_butlast:
  "0 < length xs \<Longrightarrow> py_slice (Some 0) (Some (int (length xs) - 1)) xs = butlast xs"
proof -
  assume "0 < length xs"
  then have "nat (int (length xs) - 1) = length xs - 1" by linarith
  then show ?thesis
    by (simp add: py_slice_def norm_index_def Let_def butlast_conv_take)
qed

text \<open>
  C4, on the code. For a rectangular alignment without any gap symbol and with at least
  two columns, \<^verbatim>\<open>edges\<close> finds the region \<open>(0, last_column)\<close>, as the claim says, and
  then slices every record to \<^verbatim>\<open>[0:last_column]\<close>, which leaves the last column out:
  the trimmed alignment is the input with the last symbol of every record removed, and
  is not the input.
\<close>

theorem edges_drops_last_column:
  assumes rect: "rectangular (alignment self)"
    and gaps: "no_gaps (alignment self)"
    and cols: "2 \<le> get_alignment_length (alignment self)"
  shows "locate (alignment self) ''edges'' window_size threshold =
           Inr (Some 0, Some (int (get_alignment_length (alignment self)) - 1)) \<and>
         (\<exists>self'. trim_alignment self ''edges'' False bases consensus window_size threshold =
                    Inr self' \<and>
                  trimmed_alignment self' =
                    Some (map (\<lambda>r. r\<lparr>seq := butlast (seq r)\<rparr>) (alignment self))) \<and>
         map (\<lambda>r. r\<lparr>seq := butlast (seq r)\<rparr>) (alignment self) \<noteq> alignment self"
proof -
  let ?al = "alignment self"
  let ?n = "get_alignment_length ?al"
  have pos: "0 < ?n" using cols by simp
  have ne: "?al \<noteq> []" using cols alignment_length_Nil by auto
  have loc: "locate ?al ''edges'' window_size threshold = Inr (Some 0, Some (int ?n - 1))"
    using find_ends_no_gaps [OF rect gaps pos] pos by (simp add: locate_def)
  have e: "int ?n - 1 \<noteq> 0" using cols by simp
  have loop: "trim_loop ''edges'' False bases (ploc self) (Some 0) (Some (int ?n - 1)) ?al (Some []) =
                Inr (Some (map (\<lambda>r. slice_record r (Some 0) (Some (int ?n - 1))) ?al))"
    using trim_loop_slices [of "''edges''" 0 "int ?n - 1" bases "ploc self" ?al "[]"] e by simp
  have len: "\<forall>r\<in>set ?al. length (seq r) = ?n"
    using rect by (simp add: rectangular_def list_all_iff)
  have sl: "map (\<lambda>r. slice_record r (Some 0) (Some (int ?n - 1))) ?al =
            map (\<lambda>r. r\<lparr>seq := butlast (seq r)\<rparr>) ?al"
  proof (rule map_cong [OF refl])
    fix r assume "r \<in> set ?al"
    then have "length (seq r) = ?n" using len by simp
    then show "slice_record r (Some 0) (Some (int ?n - 1)) = r\<lparr>seq := butlast (seq r)\<rparr>"
      using slice_butlast [of "seq r"] pos by (simp add: slice_record_def)
  qed
  have tr: "\<exists>self'. trim_alignment self ''edges'' False bases consensus window_size threshold =
                     Inr self' \<and>
                   trimmed_alignment self' = Some (map (\<lambda>r. r\<lparr>seq := butlast (seq r)\<rparr>) ?al)"
    using loc loop sl ne by (cases consensus) (simp_all add: trim_alignment_def truthy_alignment_def)
  have "map (\<lambda>r. r\<lparr>seq := butlast (seq r)\<rparr>) ?al \<noteq> ?al"
  proof
    assume eq: "map (\<lambda>r. r\<lparr>seq := butlast (seq r)\<rparr>) ?al = ?al"
    obtain r rs where al: "?al = r # rs" using ne by (cases ?al) auto
    then have "r\<lparr>seq := butlast (seq r)\<rparr> = r" using eq by simp
    then have "seq (r\<lparr>seq := butlast (seq r)\<rparr>) = seq r" by simp
    then have "butlast (seq r) = seq r" by simp
    then have "length (butlast (seq r)) = length (seq r)" by simp
    moreover have "length (seq r) = ?n" using len al by simp
    ultimately show False using pos by simp
  qed
  then show ?thesis using loc tr by simp
qed

theorem edges_drops_last_column_witness:
  "rectangular (alignment (loaded gap_free)) \<and> no_gaps (alignment (loaded gap_free)) \<and>
   2 \<le> get_alignment_length (alignment (loaded gap_free)) \<and>
   locate gap_free ''edges'' 20 (1 / 2) = Inr (Some 0, Some 3) \<and>
   trim_alignment (loaded gap_free) ''edges'' False None True 20 (1 / 2) =
     Inr ((loaded gap_free)\<lparr>trimmed_alignment :=
            Some [seq_record ''s1'' ''ACG'', seq_record ''s2'' ''ACG''],
          trimmed_alignment_summary :=
            Some [seq_record ''s1'' ''ACG'', seq_record ''s2'' ''ACG'']\<rparr>)"
proof -
  have r: "rectangular (alignment (loaded gap_free))" by code_simp
  have g: "no_gaps (alignment (loaded gap_free))" by code_simp
  have c: "2 \<le> get_alignment_length (alignment (loaded gap_free))" by code_simp
  have n: "get_alignment_length gap_free = 4" by code_simp
  have a: "alignment (loaded gap_free) = gap_free" by (simp add: loaded_def)
  have b: "map (\<lambda>r. r\<lparr>seq := butlast (seq r)\<rparr>) gap_free =
           [seq_record ''s1'' ''ACG'', seq_record ''s2'' ''ACG'']"
    by (simp add: gap_free_def seq_record_def)
  have t: "trim_alignment (loaded gap_free) ''edges'' False None True 20 (1 / 2) =
     Inr ((loaded gap_free)\<lparr>trimmed_alignment :=
            Some [seq_record ''s1'' ''ACG'', seq_record ''s2'' ''ACG''],
          trimmed_alignment_summary :=
            Some [seq_record ''s1'' ''ACG'', seq_record ''s2'' ''ACG'']\<rparr>)"
    by code_simp
  show ?thesis
    using r g c t edges_drops_last_column [OF r g c, of 20 "1 / 2" None True] by (simp add: a b n)
qed

subsection \<open>One ambiguous column\<close>

lemma ambiguous_loop_filter:
  assumes "\<forall>c\<in>set cols. \<forall>r\<in>set ta. c < length (seq r)"
  shows "ambiguous_loop ta cols acc = Inr (acc @ filter (ambiguous_column ta) cols)"
  using assms
proof (induction cols arbitrary: acc)
  case Nil
  then show ?case by simp
next
  case (Cons c cs)
  have col: "get_column ta c = Inr (map (\<lambda>r. seq r ! c) ta)"
    using Cons.prems by (simp add: get_column_rect)
  have "CHR ''N'' \<in> set (map (\<lambda>r. seq r ! c) ta) \<longleftrightarrow> ambiguous_column ta c"
    using Cons.prems by (force simp: ambiguous_column_def list_ex_iff image_iff)
  then show ?case using col Cons by simp
qed

lemma maximum_loop_one:
  assumes "0 < k" and "k < n"
  shows "snd (maximum_loop [0, k, n] [0..<length [0, k, n]] (0, None)) =
           (if n - k > k then Some (1, 2) else Some (0, 1))"
proof -
  have "[0..<length [0, k, n]] = [0, 1, 2]"
    by (simp add: upt_conv_Cons)
  then show ?thesis using assms by simp
qed

text \<open>
  C6, on the code. For a rectangular trimmed alignment of \<open>L\<close> columns whose only
  ambiguous column is \<open>k\<close>, with \<open>0 < k < L - 1\<close>, the refiner compares the span
  lengths \<open>k\<close> and \<open>L - 1 - k\<close> and takes the left span unless the right one is strictly
  longer, as the claim says; but it slices every record to \<^verbatim>\<open>[1:k]\<close> on the left and to
  \<^verbatim>\<open>[k+1:L-1]\<close> on the right, so the chosen span loses column 0 or column \<open>L - 1\<close>.
\<close>

theorem refiner_single_ambiguity:
  assumes rect: "rectangular ta"
    and one: "ambiguous_columns ta = [k]"
    and k: "0 < k" "k < get_alignment_length ta - 1"
  shows "trim_ambiguous_bases (self\<lparr>trimmed_alignment := Some ta\<rparr>) =
           Inr (self\<lparr>trimmed_alignment := Some ta,
                    perfect_trimmed_alignment := Some
                      (if get_alignment_length ta - 1 - k \<le> k
                       then map (\<lambda>r. slice_record r (Some 1) (Some (int k))) ta
                       else map (\<lambda>r. slice_record r (Some (int k + 1))
                                       (Some (int (get_alignment_length ta) - 1))) ta)\<rparr>)"
proof -
  let ?n = "get_alignment_length ta"
  have ne: "ta \<noteq> []"
    using k by (auto simp: get_alignment_length_def)
  have scan: "ambiguous_loop ta [0..<?n] [] = Inr [k]"
    using ambiguous_loop_filter [OF rectangular_cols [OF rect], of "[]"] one
    by (simp add: ambiguous_columns_def)
  have m: "snd (maximum_loop [0, int k, int ?n - 1] [0..<length [0, int k, int ?n - 1]] (0, None)) =
           (if int ?n - 1 - int k > int k then Some (1, 2) else Some (0, 1))"
    using k by (intro maximum_loop_one) auto
  have c: "int ?n - 1 - int k > int k \<longleftrightarrow> \<not> ?n - 1 - k \<le> k"
    using k by linarith
  show ?thesis
    using ne scan m c
    by (simp add: trim_ambiguous_bases_def truthy_alignment_def Let_def del: maximum_loop.simps)
qed

theorem refiner_single_ambiguity_witness:
  "rectangular one_ambiguity \<and> ambiguous_columns one_ambiguity = [2] \<and>
   (0 :: nat) < 2 \<and> 2 < get_alignment_length one_ambiguity - 1 \<and>
   trim_ambiguous_bases ((loaded one_ambiguity)\<lparr>trimmed_alignment := Some one_ambiguity\<rparr>) =
     Inr ((loaded one_ambiguity)\<lparr>trimmed_alignment := Some one_ambiguity,
            perfect_trimmed_alignment :=
              Some [seq_record ''s1'' ''C'', seq_record ''s2'' ''C'']\<rparr>)"
proof -
  have r: "rectangular one_ambiguity" by code_simp
  have a: "ambiguous_columns one_ambiguity = [2]" by code_simp
  have k0: "(0 :: nat) < 2" by simp
  have k1: "2 < get_alignment_length one_ambiguity - 1" by code_simp
  have n: "get_alignment_length one_ambiguity = 5" by code_simp
  have s: "map (\<lambda>r. slice_record r (Some 1) (Some 2)) one_ambiguity =
           [seq_record ''s1'' ''C'', seq_record ''s2'' ''C'']"
    by code_simp
  show ?thesis
    using r a k1 refiner_single_ambiguity [OF r a k0 k1, of "loaded one_ambiguity"]
    by (simp add: n s)
qed

subsection \<open>The probe under \<^verbatim>\<open>running-probe\<close>\<close>

lemma probe_index_loop_first:
  assumes "i < length rs" and "name (rs ! i) = ''probe''"
    and "\<forall>j<i. name (rs ! j) \<noteq> ''probe''"
  shows "probe_index_loop (enumerate n rs) k0 = Some (n + i)"
  using assms
proof (induction rs arbitrary: n i k0)
  case Nil
  then show ?case by simp
next
  case (Cons r rs)
  show ?case
  proof (cases i)
    case 0
    then show ?thesis using Cons.prems by simp
  next
    case (Suc i')
    then have "name r \<noteq> ''probe''" using Cons.prems(3) by auto
    moreover have "probe_index_loop (enumerate (Suc n) rs) (Some n) = Some (Suc n + i')"
      using Cons.prems Suc by (intro Cons.IH) auto
    ultimately show ?thesis using Suc by simp
  qed
qed

text \<open>
  C1, on the code. For an alignment whose first record named \<^verbatim>\<open>probe\<close> has index \<open>i\<close>,
  the region under \<^verbatim>\<open>running-probe\<close> is the one of the plain loop, run with the gap
  proportion \<open>i\<close>: the probe's symbol stays in every column, and the probe-excluding
  loop is not entered.
\<close>

theorem running_probe_keeps_probe:
  assumes "i < length al" and "name (al ! i) = ''probe''"
    and "\<forall>j<i. name (al ! j) \<noteq> ''probe''"
  shows "locate al ''running-probe'' window_size threshold =
           running_average al window_size threshold (of_nat i) (Some 1) False"
  using probe_index_loop_first [OF assms, of 0 None] by (simp add: locate_def)

theorem running_probe_keeps_probe_witness:
  "(2 :: nat) < length with_probe \<and> name (with_probe ! 2) = ''probe'' \<and>
   name (with_probe ! 0) \<noteq> ''probe'' \<and> name (with_probe ! 1) \<noteq> ''probe'' \<and>
   locate with_probe ''running-probe'' 2 1 = Inr (Some 2, Some 4) \<and>
   running_average with_probe 2 1 (3 / 10) (Some 2) True = Inr (Some 0, Some 4) \<and>
   trim_alignment (loaded with_probe) ''running-probe'' False None False 2 1 =
     Inr ((loaded with_probe)\<lparr>trimmed_alignment :=
            Some [seq_record ''s1'' ''GT'', seq_record ''s2'' ''GT'', seq_record ''probe'' ''G-'']\<rparr>)"
proof -
  have a: "(2 :: nat) < length with_probe" by (simp add: with_probe_def)
  have b: "name (with_probe ! 2) = ''probe''" by (simp add: with_probe_def seq_record_def)
  have c: "\<forall>j<2. name (with_probe ! j) \<noteq> ''probe''"
    by (simp add: with_probe_def seq_record_def less_Suc_eq numeral_2_eq_2)
  have p: "running_average with_probe 2 1 (of_nat 2) (Some 1) False = Inr (Some 2, Some 4)"
    by code_simp
  have q: "running_average with_probe 2 1 (3 / 10) (Some 2) True = Inr (Some 0, Some 4)"
    by code_simp
  have l: "locate with_probe ''running-probe'' 2 1 = Inr (Some 2, Some 4)"
    using running_probe_keeps_probe [OF a b c, of 2 1] p by simp
  have t: "trim_alignment (loaded with_probe) ''running-probe'' False None False 2 1 =
     Inr ((loaded with_probe)\<lparr>trimmed_alignment :=
            Some [seq_record ''s1'' ''GT'', seq_record ''s2'' ''GT'', seq_record ''probe'' ''G-'']\<rparr>)"
    by code_simp
  have c0: "name (with_probe ! 0) \<noteq> ''probe''" and c1: "name (with_probe ! 1) \<noteq> ''probe''"
    by (simp_all add: with_probe_def seq_record_def)
  show ?thesis using a b c0 c1 l q t by simp
qed

subsection \<open>Metadata of the trimmed records\<close>

lemma same_metadata_slices:
  "same_metadata (map (\<lambda>r. slice_record r lo hi) al) al"
  by (simp add: same_metadata_def slice_record_def)

lemma trim_loop_dropped:
  assumes "method = ''edges'' \<or> method = ''running'' \<or> method = ''running-probe''"
    and "\<not> ((case start of None \<Rightarrow> False | Some s \<Rightarrow> s \<ge> 0) \<and>
              (case end_col of None \<Rightarrow> False | Some e \<Rightarrow> e \<noteq> 0))"
  shows "trim_loop method False bases pl start end_col rs (Some []) =
           Inr (if rs = [] then Some [] else None)"
proof (cases rs)
  case Nil
  then show ?thesis by simp
next
  case (Cons r rs')
  have "trim_record method False bases pl start end_col r (Some []) = Inr (None, True)"
    using assms by (auto simp: trim_record_def)
  then show ?thesis using Cons by simp
qed

lemma trim_loop_skips:
  assumes "\<not> (method = ''edges'' \<or> method = ''running'' \<or> method = ''running-probe'')"
    and "\<not> (method = ''static'' \<and> (case bases of None \<Rightarrow> 0 | Some x \<Rightarrow> x) \<noteq> 0)"
  shows "trim_loop method False bases pl start end_col rs ta = Inr ta"
proof (induction rs)
  case Nil
  then show ?case by simp
next
  case (Cons r rs)
  have "trim_record method False bases pl start end_col r ta = Inr (ta, False)"
    using assms by (auto simp: trim_record_def Let_def)
  then show ?case using Cons by simp
qed

lemma trim_loop_static:
  assumes "(case bases of None \<Rightarrow> 0 | Some x \<Rightarrow> x) \<noteq> 0"
  shows "trim_loop ''static'' False bases pl start end_col rs (Some []) =
           (if rs = [] then Inr (Some []) else Inl TypeError)"
proof (cases rs)
  case Nil
  then show ?thesis by simp
next
  case (Cons r rs')
  have "trim_record ''static'' False bases pl start end_col r (Some []) = Inl TypeError"
    using assms by (simp add: trim_record_def Let_def)
  then show ?thesis using Cons by simp
qed

lemma trim_alignment_result:
  assumes run: "trim_alignment self method rp bases consensus window_size threshold = Inr self'"
  shows "\<exists>start end_col.
           locate (alignment self) method window_size threshold = Inr (start, end_col) \<and>
           (if method = ''notrim'' then Inr (Some (alignment self))
            else trim_loop method rp bases (ploc self) start end_col (alignment self) (Some [])) =
             Inr (trimmed_alignment self')"
proof -
  obtain start end_col where loc: "locate (alignment self) method window_size threshold = Inr (start, end_col)"
    using run by (auto simp: trim_alignment_def split: sum.splits)
  define res where "res = (if method = ''notrim'' then Inr (Some (alignment self))
                 else trim_loop method rp bases (ploc self) start end_col
                        (alignment self) (Some []))"
  have unf: "trim_alignment self method rp bases consensus window_size threshold =
     (case res of
             Inl e \<Rightarrow> Inl e
           | Inr ta \<Rightarrow>
               (let self1 = self\<lparr>trimmed_alignment := ta\<rparr>;
                    self2 = (if consensus \<and> truthy_alignment ta
                             then self1\<lparr>trimmed_alignment_summary := ta\<rparr> else self1)
                in if \<not> truthy_alignment ta then
                     (case dropped_notice (alignment self) of
                        Inl e \<Rightarrow> Inl e
                      | Inr line \<Rightarrow> Inr (self2\<lparr>stdout := stdout self2 @ [line]\<rparr>))
                   else Inr self2))"
    unfolding trim_alignment_def res_def using loc by simp
  obtain ta where ta: "res = Inr ta"
    using run unfolding unf by (cases res) auto
  have "trimmed_alignment self' = ta"
    using run unfolding unf ta by (auto simp: Let_def split: if_splits sum.splits)
  then show ?thesis using loc ta by (auto simp: res_def)
qed

text \<open>
  Without probe removal the records of a trimmed alignment are slices of the records of
  the input, or the input's records themselves: a trimming that returns a trimmed
  alignment with records returns one with the identifiers, names and descriptions of
  the input, in order.
\<close>

lemma slicing_keeps_metadata:
  assumes run: "trim_alignment self method False bases consensus window_size threshold = Inr self'"
    and ta: "trimmed_alignment self' = Some ta" and ne: "ta \<noteq> []"
  shows "same_metadata ta (alignment self)"
proof -
  obtain start end_col where
    res: "(if method = ''notrim'' then Inr (Some (alignment self))
           else trim_loop method False bases (ploc self) start end_col (alignment self) (Some [])) =
          Inr (Some ta)"
    using trim_alignment_result [OF run] ta by auto
  show ?thesis
  proof (cases "method = ''notrim''")
    case True
    then show ?thesis using res by (simp add: same_metadata_def)
  next
    case nn: False
    then have loop: "trim_loop method False bases (ploc self) start end_col (alignment self) (Some []) =
          Inr (Some ta)"
      using res by simp
    show ?thesis
    proof (cases "method = ''edges'' \<or> method = ''running'' \<or> method = ''running-probe''")
      case slice: True
      show ?thesis
      proof (cases "(case start of None \<Rightarrow> False | Some s \<Rightarrow> s \<ge> 0) \<and>
                (case end_col of None \<Rightarrow> False | Some e \<Rightarrow> e \<noteq> 0)")
        case True
        then obtain s e where se: "start = Some s" "end_col = Some e" "0 \<le> s" "e \<noteq> 0"
          by (auto split: option.splits)
        have "ta = map (\<lambda>r. slice_record r (Some s) (Some e)) (alignment self)"
          using loop se trim_loop_slices [OF slice se(3,4), of bases "ploc self" "alignment self" "[]"]
          by simp
        then show ?thesis by (simp add: same_metadata_slices)
      next
        case False
        then show ?thesis
          using loop ne trim_loop_dropped [OF slice False, of bases "ploc self" "alignment self"]
          by (simp split: if_splits)
      qed
    next
      case other: False
      show ?thesis
      proof (cases "method = ''static'' \<and> (case bases of None \<Rightarrow> 0 | Some x \<Rightarrow> x) \<noteq> 0")
        case True
        then show ?thesis
          using loop ne trim_loop_static [of bases "ploc self" start end_col "alignment self"]
          by (simp split: if_splits)
      next
        case False
        then show ?thesis
          using loop ne trim_loop_skips [OF other False, of "ploc self" start end_col "alignment self" "Some []"]
          by simp
      qed
    qed
  qed
qed

end
